theory Spec2Isabelle
  imports Complex_Main
begin

unbundle bit_operations_syntax

section \<open>Data model of \<open>InputManagerService\<close>\<close>

text \<open>
  The service of \<^verbatim>\<open>src/services/InputManager.js\<close> is a single object whose fields are
  mutated by its methods. The model passes that object around as a record. JavaScript
  values that may be \<^verbatim>\<open>undefined\<close> are options; a property access on \<^verbatim>\<open>undefined\<close>
  raises \<^verbatim>\<open>TypeError\<close>, which is the only error the file can raise by itself.
\<close>

datatype error = TypeError

text \<open>Arguments a caller may hand to \<^verbatim>\<open>setMode\<close>: any JavaScript value.\<close>

datatype jsval = JUndefined | JNull | JBool bool | JNum real | JStr string

text \<open>
  A \<^verbatim>\<open>GamepadButton\<close> with its \<^verbatim>\<open>pressed\<close> field (\<open>None\<close> when the field is missing),
  and a \<^verbatim>\<open>Gamepad\<close> with its two arrays. An array entry is \<open>None\<close> when it is
  \<^verbatim>\<open>undefined\<close> or \<^verbatim>\<open>null\<close>; an index past the end reads \<^verbatim>\<open>undefined\<close> as well. An
  axis entry \<open>None\<close> also stands for \<^verbatim>\<open>NaN\<close>: both compare false with every number.
\<close>

record gamepadButton =
  pressed :: "bool option"

record gamepad =
  buttons :: "gamepadButton option list option"
  axes :: "real option list option"

text \<open>The static frame buffer \<^verbatim>\<open>_inputBuffer\<close>.\<close>

record buffer =
  buf_up :: bool
  buf_down :: bool
  buf_left :: bool
  buf_right :: bool
  buf_a :: bool
  buf_b :: bool
  buf_x :: bool
  buf_y :: bool
  buf_start :: bool
  buf_select :: bool

record keyboardEvent =
  ev_key :: string
  ev_type :: string

text \<open>
  The fields of the service. \<open>keyListeners\<close> says whether \<^verbatim>\<open>boundKeyHandler\<close> is attached
  to the window, \<open>pendingFrame\<close> is the animation-frame request the browser holds for
  \<^verbatim>\<open>loop\<close>, \<open>pico8_buttons\<close> is \<^verbatim>\<open>window.pico8_buttons\<close> (\<open>None\<close> when it is missing),
  and \<open>emitted\<close> records the calls of \<^verbatim>\<open>emit\<close> in order: every listener receives exactly
  this sequence of event names. Listeners are observers here; a listener that calls back
  into the service is outside the model.
\<close>

record state =
  inputMode :: string
  active :: bool
  loopId :: "nat option"
  lastButtonState :: "string \<rightharpoonup> bool"
  inputBuffer :: buffer
  swapButtons :: bool
  isAndroid :: bool
  justSwapped :: bool
  keys :: "string \<rightharpoonup> bool"
  keyListeners :: bool
  pendingFrame :: "nat option"
  pico8_buttons :: "nat list option"
  emitted :: "string list"

text \<open>Truthiness of a possibly undefined boolean, as \<^verbatim>\<open>if (v)\<close> and \<^verbatim>\<open>!v\<close> read it.\<close>

definition truthy :: "bool option \<Rightarrow> bool" where
  "truthy v = (v = Some True)"

definition keyDown :: "(string \<rightharpoonup> bool) \<Rightarrow> string \<Rightarrow> bool" where
  "keyDown ks k = truthy (ks k)"

text \<open>The edge memory of an event name, read as the code reads it.\<close>

definition held :: "state \<Rightarrow> string \<Rightarrow> bool" where
  "held s e = truthy (lastButtonState s e)"

section \<open>Construction, key tracking, mode control\<close>

definition clearedButtonState :: "string \<rightharpoonup> bool" where
  "clearedButtonState =
     [''menu'' \<mapsto> False, ''navUp'' \<mapsto> False, ''navDown'' \<mapsto> False, ''navLeft'' \<mapsto> False,
      ''navRight'' \<mapsto> False, ''confirm'' \<mapsto> False, ''back'' \<mapsto> False]"

definition clearedBuffer :: buffer where
  "clearedBuffer =
     \<lparr>buf_up = False, buf_down = False, buf_left = False, buf_right = False,
      buf_a = False, buf_b = False, buf_x = False, buf_y = False,
      buf_start = False, buf_select = False\<rparr>"

text \<open>
  The constructor. Its parameters are the platform test and the value
  \<^verbatim>\<open>window.pico8_buttons\<close> had before.
\<close>

definition construct :: "bool \<Rightarrow> nat list option \<Rightarrow> state" where
  "construct android existing =
     \<lparr>inputMode = ''UI'', active = False, loopId = None,
      lastButtonState = clearedButtonState, inputBuffer = clearedBuffer,
      swapButtons = False, isAndroid = android, justSwapped = False,
      keys = Map.empty, keyListeners = False, pendingFrame = None,
      pico8_buttons = Some (case existing of Some xs \<Rightarrow> xs | None \<Rightarrow> replicate 8 0),
      emitted = []\<rparr>"

definition handleKey :: "keyboardEvent \<Rightarrow> state \<Rightarrow> state" where
  "handleKey e s = s\<lparr>keys := (keys s)(ev_key e \<mapsto> (ev_type e = ''keydown''))\<rparr>"

text \<open>\<^verbatim>\<open>arr[0] = v\<close>: JavaScript extends an empty array.\<close>

definition setSlot0 :: "nat \<Rightarrow> nat list \<Rightarrow> nat list" where
  "setSlot0 v xs = (case xs of [] \<Rightarrow> [v] | _ # rest \<Rightarrow> v # rest)"

definition setMode :: "jsval \<Rightarrow> state \<Rightarrow> state" where
  "setMode mode s =
     (case mode of
        JStr m \<Rightarrow>
          if m = ''UI'' \<or> m = ''GAME'' then
            (let s1 = s\<lparr>inputMode := m, lastButtonState := clearedButtonState\<rparr>
             in if m = ''UI''
                then s1\<lparr>pico8_buttons := map_option (setSlot0 0) (pico8_buttons s1)\<rparr>
                else s1)
          else s
      | _ \<Rightarrow> s)"

section \<open>The event bus and the edge detector\<close>

definition emit :: "string \<Rightarrow> state \<Rightarrow> state" where
  "emit eventName s = s\<lparr>emitted := emitted s @ [eventName]\<rparr>"

definition emitOnce :: "string \<Rightarrow> state \<Rightarrow> state" where
  "emitOnce event s =
     (if \<not> truthy (lastButtonState s event)
      then (let s1 = emit event s
            in s1\<lparr>lastButtonState := (lastButtonState s1)(event \<mapsto> True)\<rparr>)
      else s)"

definition emitChange :: "string \<Rightarrow> bool \<Rightarrow> state \<Rightarrow> state" where
  "emitChange event isPressed s =
     (if isPressed then
        (if \<not> truthy (lastButtonState s event)
         then (let s1 = emit event s
               in s1\<lparr>lastButtonState := (lastButtonState s1)(event \<mapsto> True)\<rparr>)
         else s)
      else if justSwapped s \<and> (event = ''back'' \<or> event = ''confirm'') then s
      else s\<lparr>lastButtonState := (lastButtonState s)(event \<mapsto> False)\<rparr>)"

section \<open>The swap watcher\<close>

text \<open>The callback that \<^verbatim>\<open>init\<close> registers on \<^verbatim>\<open>store.swapButtons\<close> (flush: sync).\<close>

definition swapWatch :: "bool \<Rightarrow> state \<Rightarrow> state" where
  "swapWatch newVal s =
     (let oldVal = swapButtons s;
          s1 = s\<lparr>swapButtons := newVal\<rparr>
      in if inputMode s1 = ''UI'' \<and> newVal \<noteq> oldVal
         then s1\<lparr>lastButtonState := (lastButtonState s1)(''back'' \<mapsto> True, ''confirm'' \<mapsto> True),
                 justSwapped := True\<rparr>
         else s1)"

section \<open>Sampling\<close>

text \<open>\<^verbatim>\<open>btns[i]?.pressed\<close> as a truth value.\<close>

definition btnPressed :: "gamepadButton option list \<Rightarrow> nat \<Rightarrow> bool" where
  "btnPressed btns i =
     (if i < length btns
      then (case btns ! i of None \<Rightarrow> False | Some bt \<Rightarrow> truthy (pressed bt))
      else False)"

definition axisValue :: "real option list \<Rightarrow> nat \<Rightarrow> real option" where
  "axisValue axs i = (if i < length axs then axs ! i else None)"

text \<open>\<^verbatim>\<open>axes[i] < -0.5\<close> and \<^verbatim>\<open>axes[i] > 0.5\<close>; \<^verbatim>\<open>undefined\<close> compares false.\<close>

definition axisBelow :: "nat \<Rightarrow> real option list \<Rightarrow> bool" where
  "axisBelow i axs = (case axisValue axs i of None \<Rightarrow> False | Some v \<Rightarrow> v < - (1 / 2))"

definition axisAbove :: "nat \<Rightarrow> real option list \<Rightarrow> bool" where
  "axisAbove i axs = (case axisValue axs i of None \<Rightarrow> False | Some v \<Rightarrow> v > 1 / 2)"

text \<open>
  \<^verbatim>\<open>btns[i]?.pressed || axes[j] < -0.5 || false\<close>: the axis is read only when the button
  is not pressed, and reading it raises when \<^verbatim>\<open>gp.axes\<close> is undefined.
\<close>

definition dpadOrAxis ::
  "gamepadButton option list \<Rightarrow> real option list option \<Rightarrow> nat \<Rightarrow> (real option list \<Rightarrow> bool)
     \<Rightarrow> error + bool" where
  "dpadOrAxis btns axs i test =
     (if btnPressed btns i then Inr True
      else (case axs of None \<Rightarrow> Inl TypeError | Some a \<Rightarrow> Inr (test a)))"

text \<open>The branch \<^verbatim>\<open>if (gp)\<close> of \<^verbatim>\<open>poll\<close>; indexing \<^verbatim>\<open>gp.buttons\<close> raises when it is undefined.\<close>

definition sampleGamepad :: "gamepad \<Rightarrow> buffer \<Rightarrow> error + buffer" where
  "sampleGamepad gp buf =
     (case buttons gp of
        None \<Rightarrow> Inl TypeError
      | Some btns \<Rightarrow>
          (let buf1 = buf\<lparr>buf_a := btnPressed btns 0, buf_b := btnPressed btns 1,
                          buf_x := btnPressed btns 2, buf_y := btnPressed btns 3,
                          buf_select := btnPressed btns 8, buf_start := btnPressed btns 9\<rparr>
           in case dpadOrAxis btns (axes gp) 12 (axisBelow 1) of Inl e \<Rightarrow> Inl e | Inr u \<Rightarrow>
             (case dpadOrAxis btns (axes gp) 13 (axisAbove 1) of Inl e \<Rightarrow> Inl e | Inr d \<Rightarrow>
             (case dpadOrAxis btns (axes gp) 14 (axisBelow 0) of Inl e \<Rightarrow> Inl e | Inr l \<Rightarrow>
             (case dpadOrAxis btns (axes gp) 15 (axisAbove 0) of Inl e \<Rightarrow> Inl e | Inr r \<Rightarrow>
                Inr (buf1\<lparr>buf_up := u, buf_down := d, buf_left := l, buf_right := r\<rparr>))))))"

text \<open>The branch \<^verbatim>\<open>else\<close>: reset if no gamepad.\<close>

definition resetBuffer :: "buffer \<Rightarrow> buffer" where
  "resetBuffer buf =
     buf\<lparr>buf_a := False, buf_b := False, buf_x := False, buf_y := False,
         buf_select := False, buf_start := False,
         buf_up := False, buf_down := False, buf_left := False, buf_right := False\<rparr>"

text \<open>The four keyboard lines after it.\<close>

definition applyArrows :: "(string \<rightharpoonup> bool) \<Rightarrow> buffer \<Rightarrow> buffer" where
  "applyArrows ks buf =
     (let buf1 = (if keyDown ks ''ArrowUp'' then buf\<lparr>buf_up := True\<rparr> else buf);
          buf2 = (if keyDown ks ''ArrowDown'' then buf1\<lparr>buf_down := True\<rparr> else buf1);
          buf3 = (if keyDown ks ''ArrowLeft'' then buf2\<lparr>buf_left := True\<rparr> else buf2)
      in if keyDown ks ''ArrowRight'' then buf3\<lparr>buf_right := True\<rparr> else buf3)"

definition sample :: "gamepad option \<Rightarrow> (string \<rightharpoonup> bool) \<Rightarrow> buffer \<Rightarrow> error + buffer" where
  "sample gp ks buf =
     (case (case gp of Some g \<Rightarrow> sampleGamepad g buf | None \<Rightarrow> Inr (resetBuffer buf)) of
        Inl e \<Rightarrow> Inl e
      | Inr buf1 \<Rightarrow> Inr (applyArrows ks buf1))"

section \<open>Mapping and dispatch\<close>

text \<open>Gameplay mode: the face buttons and keys of O and X, under the swap setting.\<close>

definition gameButtons :: "buffer \<Rightarrow> (string \<rightharpoonup> bool) \<Rightarrow> bool \<Rightarrow> bool \<times> bool" where
  "gameButtons buf ks swap =
     (let btnO = False; btnX = False
      in if \<not> swap then
           (let btnO = (if buf_a buf \<or> buf_y buf then True else btnO);
                btnX = (if buf_b buf \<or> buf_x buf then True else btnX);
                btnO = (if keyDown ks ''z'' \<or> keyDown ks ''Z'' \<or> keyDown ks ''c'' \<or>
                           keyDown ks ''C'' \<or> keyDown ks ''n'' \<or> keyDown ks ''N''
                        then True else btnO);
                btnX = (if keyDown ks ''x'' \<or> keyDown ks ''X'' \<or> keyDown ks ''v'' \<or>
                           keyDown ks ''V'' \<or> keyDown ks ''m'' \<or> keyDown ks ''M''
                        then True else btnX)
            in (btnO, btnX))
         else
           (let btnO = (if buf_b buf \<or> buf_x buf then True else btnO);
                btnX = (if buf_a buf \<or> buf_y buf then True else btnX);
                btnO = (if keyDown ks ''x'' \<or> keyDown ks ''X'' \<or> keyDown ks ''v'' \<or>
                           keyDown ks ''V'' \<or> keyDown ks ''m'' \<or> keyDown ks ''M''
                        then True else btnO);
                btnX = (if keyDown ks ''z'' \<or> keyDown ks ''Z'' \<or> keyDown ks ''c'' \<or>
                           keyDown ks ''C'' \<or> keyDown ks ''n'' \<or> keyDown ks ''N''
                        then True else btnX)
            in (btnO, btnX)))"

definition gameMask :: "buffer \<Rightarrow> (string \<rightharpoonup> bool) \<Rightarrow> bool \<Rightarrow> nat" where
  "gameMask buf ks swap =
     (let mask = (0::nat);
          mask = (if buf_left buf then mask OR 1 else mask);
          mask = (if buf_right buf then mask OR 2 else mask);
          mask = (if buf_up buf then mask OR 4 else mask);
          mask = (if buf_down buf then mask OR 8 else mask);
          (btnO, btnX) = gameButtons buf ks swap;
          mask = (if btnO then mask OR 16 else mask);
          mask = (if btnX then mask OR 32 else mask)
      in mask)"

definition menuPressed :: "buffer \<Rightarrow> (string \<rightharpoonup> bool) \<Rightarrow> bool" where
  "menuPressed buf ks =
     (buf_select buf \<or> buf_start buf \<or> keyDown ks ''Escape'' \<or> keyDown ks ''p'' \<or> keyDown ks ''P'')"

definition pollGame :: "state \<Rightarrow> state" where
  "pollGame s =
     (let buf = inputBuffer s;
          mask = gameMask buf (keys s) (swapButtons s);
          s1 = (if menuPressed buf (keys s) then emitOnce ''menu'' s
                else s\<lparr>lastButtonState := (lastButtonState s)(''menu'' \<mapsto> False)\<rparr>)
      in s1\<lparr>pico8_buttons := map_option (setSlot0 mask) (pico8_buttons s1)\<rparr>)"

text \<open>Navigation mode: confirm and back from one face button each and the fixed keys.\<close>

definition uiConfirm :: "buffer \<Rightarrow> (string \<rightharpoonup> bool) \<Rightarrow> bool \<Rightarrow> bool" where
  "uiConfirm buf ks swap =
     (let confirm = False;
          confirm = (if \<not> swap then (if buf_a buf then True else confirm)
                     else (if buf_b buf then True else confirm))
      in if keyDown ks ''z'' \<or> keyDown ks ''Z'' \<or> keyDown ks ''Enter'' \<or> keyDown ks '' ''
         then True else confirm)"

definition uiBack :: "buffer \<Rightarrow> (string \<rightharpoonup> bool) \<Rightarrow> bool \<Rightarrow> bool" where
  "uiBack buf ks swap =
     (let back = False;
          back = (if \<not> swap then (if buf_b buf then True else back)
                  else (if buf_a buf then True else back))
      in if keyDown ks ''x'' \<or> keyDown ks ''X'' \<or> keyDown ks ''Backspace'' \<or> keyDown ks ''Escape''
         then True else back)"

definition pollUI :: "state \<Rightarrow> state" where
  "pollUI s =
     (let buf = inputBuffer s;
          s1 = emitChange ''nav-up'' (buf_up buf) s;
          s2 = emitChange ''nav-down'' (buf_down buf) s1;
          s3 = emitChange ''nav-left'' (buf_left buf) s2;
          s4 = emitChange ''nav-right'' (buf_right buf) s3;
          confirm = uiConfirm buf (keys s) (swapButtons s);
          back = uiBack buf (keys s) (swapButtons s);
          s5 = emitChange ''confirm'' confirm s4
      in emitChange ''back'' back s5)"

text \<open>
  \<^verbatim>\<open>poll\<close>. Its parameter is what \<^verbatim>\<open>navigator.getGamepads()[0]\<close> returns in this call
  (\<open>None\<close> when there is no gamepad or no gamepad API).
\<close>

definition poll :: "gamepad option \<Rightarrow> state \<Rightarrow> error + state" where
  "poll gp s =
     (case sample gp (keys s) (inputBuffer s) of
        Inl e \<Rightarrow> Inl e
      | Inr buf \<Rightarrow>
          (let s1 = s\<lparr>inputBuffer := buf\<rparr>
           in Inr (if inputMode s1 = ''GAME'' then pollGame s1 else pollUI s1)))"

section \<open>The frame driver\<close>

definition requestAnimationFrame :: "nat \<Rightarrow> state \<Rightarrow> state" where
  "requestAnimationFrame h s = s\<lparr>pendingFrame := Some h\<rparr>"

definition cancelAnimationFrame :: "nat \<Rightarrow> state \<Rightarrow> state" where
  "cancelAnimationFrame h s =
     s\<lparr>pendingFrame := (if pendingFrame s = Some h then None else pendingFrame s)\<rparr>"

text \<open>
  \<^verbatim>\<open>loop\<close>. \<open>h\<close> is the handle \<^verbatim>\<open>requestAnimationFrame\<close> returns; \<open>gpFlush\<close> and \<open>gp\<close> are
  the gamepads the two polls see. An error in a poll leaves the loop before it is
  scheduled again.
\<close>

definition loop :: "nat \<Rightarrow> gamepad option \<Rightarrow> gamepad option \<Rightarrow> state \<Rightarrow> error + state" where
  "loop h gpFlush gp s =
     (let s1 = s\<lparr>justSwapped := False\<rparr>
      in case (if isAndroid s1 then poll gpFlush s1 else Inr s1) of
           Inl e \<Rightarrow> Inl e
         | Inr s2 \<Rightarrow>
             (case poll gp s2 of
                Inl e \<Rightarrow> Inl e
              | Inr s3 \<Rightarrow> Inr ((requestAnimationFrame h s3)\<lparr>loopId := Some h\<rparr>)))"

text \<open>A handle is truthy when it is not zero.\<close>

definition loopRunning :: "state \<Rightarrow> bool" where
  "loopRunning s = (case loopId s of None \<Rightarrow> False | Some h \<Rightarrow> h \<noteq> 0)"

definition destroy :: "state \<Rightarrow> state" where
  "destroy s =
     (let s1 = (case loopId s of
                  None \<Rightarrow> s
                | Some h \<Rightarrow> if h \<noteq> 0 then (cancelAnimationFrame h s)\<lparr>loopId := None\<rparr> else s)
      in s1\<lparr>keyListeners := False, active := False\<rparr>)"

section \<open>Traces\<close>

text \<open>
  What happens to the service between two mode switches: key notifications and frames.
  A run stops at the first error, as the exception would stop the loop.
\<close>

datatype action = KeyEvt keyboardEvent | Frame nat "gamepad option" "gamepad option"

fun step :: "action \<Rightarrow> state \<Rightarrow> error + state" where
  "step (KeyEvt e) s = Inr (handleKey e s)"
| "step (Frame h gpFlush gp) s = loop h gpFlush gp s"

fun run :: "action list \<Rightarrow> state \<Rightarrow> error + state" where
  "run [] s = Inr s"
| "run (a # as) s = (case step a s of Inl e \<Rightarrow> Inl e | Inr s1 \<Rightarrow> run as s1)"

section \<open>Vocabulary of the properties\<close>

text \<open>
  The events a call of \<^verbatim>\<open>emitChange\<close> or \<^verbatim>\<open>emitOnce\<close> adds to the stream, and the events
  added between two states.
\<close>

definition fired :: "string \<Rightarrow> bool \<Rightarrow> state \<Rightarrow> string list" where
  "fired e p s = (if p \<and> \<not> held s e then [e] else [])"

definition newEvents :: "state \<Rightarrow> state \<Rightarrow> string list" where
  "newEvents s s' = drop (length (emitted s)) (emitted s')"

text \<open>
  The six navigation events, and the reading \<^verbatim>\<open>poll\<close> hands to \<^verbatim>\<open>emitChange\<close> for each of
  them: from a sampled buffer, and from the gamepad and the service as a poll finds them.
\<close>

definition navEvents :: "string list" where
  "navEvents = [''nav-up'', ''nav-down'', ''nav-left'', ''nav-right'', ''confirm'', ''back'']"

definition navInput :: "string \<Rightarrow> buffer \<Rightarrow> (string \<rightharpoonup> bool) \<Rightarrow> bool \<Rightarrow> bool" where
  "navInput e buf ks swap =
     (if e = ''nav-up'' then buf_up buf
      else if e = ''nav-down'' then buf_down buf
      else if e = ''nav-left'' then buf_left buf
      else if e = ''nav-right'' then buf_right buf
      else if e = ''confirm'' then uiConfirm buf ks swap
      else if e = ''back'' then uiBack buf ks swap
      else False)"

definition reads :: "string \<Rightarrow> gamepad option \<Rightarrow> state \<Rightarrow> bool" where
  "reads e gp s =
     (case sample gp (keys s) (inputBuffer s) of
        Inl _ \<Rightarrow> False
      | Inr buf \<Rightarrow> navInput e buf (keys s) (swapButtons s))"

text \<open>
  An input is held through a trace when every poll of every frame of the trace reads it
  pressed.
\<close>

fun heldThrough :: "string \<Rightarrow> action list \<Rightarrow> state \<Rightarrow> bool" where
  "heldThrough e [] s = True"
| "heldThrough e (KeyEvt k # as) s = heldThrough e as (handleKey k s)"
| "heldThrough e (Frame h gpFlush gp # as) s =
     ((if isAndroid s then reads e gpFlush s else True) \<and> reads e gp s \<and>
      (case loop h gpFlush gp s of Inl _ \<Rightarrow> True | Inr s1 \<Rightarrow> heldThrough e as s1))"

text \<open>Setting bit \<open>k\<close> under a condition, the step the mask is built from.\<close>

definition orIf :: "bool \<Rightarrow> nat \<Rightarrow> nat \<Rightarrow> nat" where
  "orIf c k m = (if c then m OR 2 ^ k else m)"

text \<open>A button entry, or an axis entry, that is missing.\<close>

definition noButton :: "gamepadButton option list \<Rightarrow> nat \<Rightarrow> bool" where
  "noButton btns i =
     (if i < length btns
      then (case btns ! i of None \<Rightarrow> True | Some bt \<Rightarrow> pressed bt = None)
      else True)"

definition noAxis :: "real option list \<Rightarrow> nat \<Rightarrow> bool" where
  "noAxis axs i = (if i < length axs then axs ! i = None else True)"

text \<open>Sample inputs: gamepads with one button pressed.\<close>

definition padWith :: "nat \<Rightarrow> gamepad" where
  "padWith i = \<lparr>buttons = Some (replicate i None @ [Some \<lparr>pressed = Some True\<rparr>]), axes = Some []\<rparr>"

definition padA :: gamepad where
  "padA = padWith 0"

definition padB :: gamepad where
  "padB = padWith 1"

definition padStart :: gamepad where
  "padStart = padWith 9"

section \<open>The edge detector, step by step\<close>

lemma emitChange_eq:
  "emitChange e p s =
     s\<lparr>lastButtonState :=
         (if p then (lastButtonState s)(e \<mapsto> True)
          else if justSwapped s \<and> (e = ''back'' \<or> e = ''confirm'') then lastButtonState s
          else (lastButtonState s)(e \<mapsto> False)),
       emitted := emitted s @ fired e p s\<rparr>"
  by (cases "lastButtonState s e")
     (auto simp: emitChange_def emit_def fired_def held_def truthy_def Let_def fun_upd_idem)

lemma emitChange_fields [simp]:
  "inputMode (emitChange e p s) = inputMode s"
  "active (emitChange e p s) = active s"
  "loopId (emitChange e p s) = loopId s"
  "inputBuffer (emitChange e p s) = inputBuffer s"
  "swapButtons (emitChange e p s) = swapButtons s"
  "isAndroid (emitChange e p s) = isAndroid s"
  "justSwapped (emitChange e p s) = justSwapped s"
  "keys (emitChange e p s) = keys s"
  "keyListeners (emitChange e p s) = keyListeners s"
  "pendingFrame (emitChange e p s) = pendingFrame s"
  "pico8_buttons (emitChange e p s) = pico8_buttons s"
  by (simp_all add: emitChange_eq)

lemma emitChange_emitted [simp]:
  "emitted (emitChange e p s) = emitted s @ fired e p s"
  by (simp add: emitChange_eq)

lemma emitChange_held_other [simp]:
  "e' \<noteq> e \<Longrightarrow> held (emitChange e p s) e' = held s e'"
  by (simp add: emitChange_eq held_def)

lemma emitChange_last_other [simp]:
  "e' \<noteq> e \<Longrightarrow> lastButtonState (emitChange e p s) e' = lastButtonState s e'"
  by (simp add: emitChange_eq)

lemma emitChange_held_same:
  "held (emitChange e p s) e =
     (p \<or> held s e \<and> justSwapped s \<and> (e = ''back'' \<or> e = ''confirm''))"
  by (auto simp: emitChange_eq held_def truthy_def)

lemma fired_emitChange_other [simp]:
  "e' \<noteq> e \<Longrightarrow> fired e' q (emitChange e p s) = fired e' q s"
  by (simp add: fired_def)

lemma pollUI_fields [simp]:
  "inputMode (pollUI s) = inputMode s"
  "inputBuffer (pollUI s) = inputBuffer s"
  "swapButtons (pollUI s) = swapButtons s"
  "isAndroid (pollUI s) = isAndroid s"
  "justSwapped (pollUI s) = justSwapped s"
  "keys (pollUI s) = keys s"
  "pico8_buttons (pollUI s) = pico8_buttons s"
  "active (pollUI s) = active s"
  "loopId (pollUI s) = loopId s"
  "keyListeners (pollUI s) = keyListeners s"
  "pendingFrame (pollUI s) = pendingFrame s"
  by (simp_all add: pollUI_def Let_def)

lemma pollUI_emitted:
  "emitted (pollUI s) =
     emitted s @ fired ''nav-up'' (buf_up (inputBuffer s)) s
       @ fired ''nav-down'' (buf_down (inputBuffer s)) s
       @ fired ''nav-left'' (buf_left (inputBuffer s)) s
       @ fired ''nav-right'' (buf_right (inputBuffer s)) s
       @ fired ''confirm'' (uiConfirm (inputBuffer s) (keys s) (swapButtons s)) s
       @ fired ''back'' (uiBack (inputBuffer s) (keys s) (swapButtons s)) s"
  by (simp add: pollUI_def Let_def)


lemma pollUI_held:
  "e \<in> set navEvents \<Longrightarrow>
   held (pollUI s) e =
     (navInput e (inputBuffer s) (keys s) (swapButtons s)
      \<or> held s e \<and> justSwapped s \<and> (e = ''back'' \<or> e = ''confirm''))"
  by (auto simp: navEvents_def navInput_def pollUI_def Let_def emitChange_held_same)

lemma pollUI_count:
  "e \<in> set navEvents \<Longrightarrow>
   count_list (emitted (pollUI s)) e =
     count_list (emitted s) e
       + (if navInput e (inputBuffer s) (keys s) (swapButtons s) \<and> \<not> held s e then 1 else 0)"
  by (auto simp: navEvents_def navInput_def pollUI_emitted fired_def)

lemma pollUI_newEvents:
  "newEvents s (pollUI s) =
     filter (\<lambda>e. navInput e (inputBuffer s) (keys s) (swapButtons s) \<and> \<not> held s e) navEvents"
  by (simp add: newEvents_def pollUI_emitted fired_def navEvents_def navInput_def)


lemma sampleGamepad_indep: "sampleGamepad g buf = sampleGamepad g buf'"
  by (cases buf; cases buf')
     (simp add: sampleGamepad_def Let_def split: option.splits sum.splits)

lemma sample_indep: "sample gp ks buf = sample gp ks buf'"
proof (cases gp)
  case None
  then show ?thesis
    by (cases buf; cases buf') (simp add: sample_def resetBuffer_def)
next
  case (Some g)
  then show ?thesis
    using sampleGamepad_indep [of g buf buf'] by (simp add: sample_def)
qed

lemma reads_cong:
  "keys s = keys t \<Longrightarrow> swapButtons s = swapButtons t \<Longrightarrow> reads e gp s = reads e gp t"
  using sample_indep [of gp "keys t" "inputBuffer s" "inputBuffer t"]
  by (auto simp: reads_def split: sum.splits)

lemma poll_UI_unfold:
  assumes "inputMode s \<noteq> ''GAME''" and "poll gp s = Inr s'"
  obtains buf where "sample gp (keys s) (inputBuffer s) = Inr buf"
    and "s' = pollUI (s\<lparr>inputBuffer := buf\<rparr>)"
  using assms by (auto simp: poll_def Let_def split: sum.splits)

lemma poll_UI_step:
  assumes "inputMode s \<noteq> ''GAME''" and "poll gp s = Inr s'" and "e \<in> set navEvents"
  shows "held s' e = (reads e gp s \<or> held s e \<and> justSwapped s \<and> (e = ''back'' \<or> e = ''confirm''))"
    and "count_list (emitted s') e =
           count_list (emitted s) e + (if reads e gp s \<and> \<not> held s e then 1 else 0)"
    and "inputMode s' = inputMode s" and "keys s' = keys s" and "swapButtons s' = swapButtons s"
    and "isAndroid s' = isAndroid s" and "justSwapped s' = justSwapped s"
proof -
  from assms(1,2) obtain buf where b: "sample gp (keys s) (inputBuffer s) = Inr buf"
    and s': "s' = pollUI (s\<lparr>inputBuffer := buf\<rparr>)"
    by (rule poll_UI_unfold)
  have r: "reads e gp s = navInput e buf (keys s) (swapButtons s)"
    by (simp add: reads_def b)
  have h: "held (s\<lparr>inputBuffer := buf\<rparr>) e = held s e"
    by (simp add: held_def)
  show "held s' e = (reads e gp s \<or> held s e \<and> justSwapped s \<and> (e = ''back'' \<or> e = ''confirm''))"
    using pollUI_held [OF assms(3), of "s\<lparr>inputBuffer := buf\<rparr>"] by (simp add: s' r h)
  show "count_list (emitted s') e =
           count_list (emitted s) e + (if reads e gp s \<and> \<not> held s e then 1 else 0)"
    using pollUI_count [OF assms(3), of "s\<lparr>inputBuffer := buf\<rparr>"] by (simp add: s' r h)
  show "inputMode s' = inputMode s" "keys s' = keys s" "swapButtons s' = swapButtons s"
    "isAndroid s' = isAndroid s" "justSwapped s' = justSwapped s"
    by (simp_all add: s')
qed

lemma loop_UI_step:
  assumes ui: "inputMode s \<noteq> ''GAME''" and l: "loop h gpFlush gp s = Inr s'"
    and e: "e \<in> set navEvents"
    and r1: "if isAndroid s then reads e gpFlush s else True" and r2: "reads e gp s"
  shows "held s' e"
    and "count_list (emitted s') e = count_list (emitted s) e + (if held s e then 0 else 1)"
    and "inputMode s' = inputMode s" and "\<not> justSwapped s'"
proof -
  let ?s1 = "s\<lparr>justSwapped := False\<rparr>"
  have ui1: "inputMode ?s1 \<noteq> ''GAME''" using ui by simp
  have h1: "held ?s1 e = held s e" by (simp add: held_def)
  have rd: "reads e g ?s1 = reads e g s" for g by (rule reads_cong) simp_all
  obtain s2 s3 where s2: "(if isAndroid s then poll gpFlush ?s1 else Inr ?s1) = Inr s2"
    and s3: "poll gp s2 = Inr s3"
    and s': "s' = (requestAnimationFrame h s3)\<lparr>loopId := Some h\<rparr>"
    using l by (auto simp: loop_def Let_def split: sum.splits if_splits)
  have A: "inputMode s2 = inputMode s \<and> keys s2 = keys s \<and> swapButtons s2 = swapButtons s
           \<and> \<not> justSwapped s2
           \<and> held s2 e = (if isAndroid s then True else held s e)
           \<and> count_list (emitted s2) e
               = count_list (emitted s) e + (if isAndroid s \<and> \<not> held s e then 1 else 0)"
  proof (cases "isAndroid s")
    case True
    with s2 have p: "poll gpFlush ?s1 = Inr s2" by simp
    from True r1 have "reads e gpFlush ?s1" by (simp add: rd)
    then show ?thesis
      using poll_UI_step [OF ui1 p e] True by (simp add: h1)
  next
    case False
    with s2 have "s2 = ?s1" by simp
    then show ?thesis using False by (simp add: h1)
  qed
  then have ui2: "inputMode s2 \<noteq> ''GAME''" using ui by simp
  have rd2: "reads e gp s2" using A r2 reads_cong [of s2 s e gp] by simp
  have B: "held s3 e"
    "count_list (emitted s3) e = count_list (emitted s2) e + (if held s2 e then 0 else 1)"
    "inputMode s3 = inputMode s2" "justSwapped s3 = justSwapped s2"
    using poll_UI_step [OF ui2 s3 e] rd2 by simp_all
  show "held s' e" using B(1) by (simp add: s' held_def requestAnimationFrame_def)
  show "count_list (emitted s') e = count_list (emitted s) e + (if held s e then 0 else 1)"
    using A B(2) by (simp add: s' requestAnimationFrame_def)
  show "inputMode s' = inputMode s" using A B(3) by (simp add: s' requestAnimationFrame_def)
  show "\<not> justSwapped s'" using A B(4) by (simp add: s' requestAnimationFrame_def)
qed

lemma run_held_no_event:
  "inputMode s \<noteq> ''GAME'' \<Longrightarrow> e \<in> set navEvents \<Longrightarrow> held s e \<Longrightarrow>
   heldThrough e acts s \<Longrightarrow> run acts s = Inr s' \<Longrightarrow>
   held s' e \<and> count_list (emitted s') e = count_list (emitted s) e \<and> inputMode s' = inputMode s"
proof (induction acts arbitrary: s)
  case Nil
  then show ?case by simp
next
  case (Cons a acts)
  show ?case
  proof (cases a)
    case (KeyEvt k)
    have "inputMode (handleKey k s) \<noteq> ''GAME''" "held (handleKey k s) e"
      using Cons.prems by (simp_all add: handleKey_def held_def)
    moreover have "heldThrough e acts (handleKey k s)" "run acts (handleKey k s) = Inr s'"
      using Cons.prems KeyEvt by simp_all
    ultimately have "held s' e \<and> count_list (emitted s') e = count_list (emitted (handleKey k s)) e
        \<and> inputMode s' = inputMode (handleKey k s)"
      using Cons.IH Cons.prems(2) by blast
    then show ?thesis by (simp add: handleKey_def)
  next
    case (Frame h g1 g2)
    from Cons.prems Frame obtain s1 where l: "loop h g1 g2 s = Inr s1" and r: "run acts s1 = Inr s'"
      by (auto split: sum.splits)
    have rd: "if isAndroid s then reads e g1 s else True" "reads e g2 s"
      and ht: "heldThrough e acts s1"
      using Cons.prems Frame l by (simp_all split: if_splits)
    note st = loop_UI_step [OF Cons.prems(1) l Cons.prems(2) rd]
    have "held s' e \<and> count_list (emitted s') e = count_list (emitted s1) e
        \<and> inputMode s' = inputMode s1"
      using Cons.IH [of s1] st Cons.prems(1,2) ht r by simp
    then show ?thesis using st Cons.prems(3) by simp
  qed
qed


lemma loop_UI_release:
  assumes ui: "inputMode s \<noteq> ''GAME''" and l: "loop h gpFlush gp s = Inr s'"
    and e: "e \<in> set navEvents" and r: "\<not> reads e gp s"
  shows "\<not> held s' e" and "inputMode s' = inputMode s"
proof -
  let ?s1 = "s\<lparr>justSwapped := False\<rparr>"
  have ui1: "inputMode ?s1 \<noteq> ''GAME''" using ui by simp
  obtain s2 s3 where s2: "(if isAndroid s then poll gpFlush ?s1 else Inr ?s1) = Inr s2"
    and s3: "poll gp s2 = Inr s3"
    and s': "s' = (requestAnimationFrame h s3)\<lparr>loopId := Some h\<rparr>"
    using l by (auto simp: loop_def Let_def split: sum.splits if_splits)
  have A: "inputMode s2 = inputMode s \<and> keys s2 = keys s \<and> swapButtons s2 = swapButtons s
           \<and> \<not> justSwapped s2"
  proof (cases "isAndroid s")
    case True
    with s2 have p: "poll gpFlush ?s1 = Inr s2" by simp
    show ?thesis using poll_UI_step(3-7) [OF ui1 p e] by simp
  next
    case False
    with s2 have "s2 = ?s1" by simp
    then show ?thesis by simp
  qed
  then have ui2: "inputMode s2 \<noteq> ''GAME''" using ui by simp
  have rd2: "\<not> reads e gp s2" using A r reads_cong [of s2 s e gp] by simp
  have "\<not> held s3 e" "inputMode s3 = inputMode s2"
    using poll_UI_step(1,3) [OF ui2 s3 e] rd2 A by simp_all
  then show "\<not> held s' e" "inputMode s' = inputMode s"
    using A by (simp_all add: s' held_def requestAnimationFrame_def)
qed

lemma hold_fires_once:
  assumes ui: "inputMode s \<noteq> ''GAME''" and e: "e \<in> set navEvents" and nh: "\<not> held s e"
    and ht: "heldThrough e (Frame h gpFlush gp # rest) s"
    and l: "loop h gpFlush gp s = Inr s1" and r: "run rest s1 = Inr s'"
  shows "count_list (emitted s1) e = count_list (emitted s) e + 1
       \<and> count_list (emitted s') e = count_list (emitted s1) e"
proof -
  have rd: "if isAndroid s then reads e gpFlush s else True" "reads e gp s"
    and ht1: "heldThrough e rest s1"
    using ht l by (simp_all split: if_splits)
  note st = loop_UI_step [OF ui l e rd]
  have ui1: "inputMode s1 \<noteq> ''GAME''" using st(3) ui by simp
  from run_held_no_event [OF ui1 e st(1) ht1 r] st(2) nh
  show ?thesis by simp
qed

section \<open>The gameplay mask\<close>

lemma gameButtons_eq:
  "gameButtons buf ks swap =
     (if swap
      then (buf_b buf \<or> buf_x buf \<or> keyDown ks ''x'' \<or> keyDown ks ''X'' \<or> keyDown ks ''v'' \<or>
              keyDown ks ''V'' \<or> keyDown ks ''m'' \<or> keyDown ks ''M'',
            buf_a buf \<or> buf_y buf \<or> keyDown ks ''z'' \<or> keyDown ks ''Z'' \<or> keyDown ks ''c'' \<or>
              keyDown ks ''C'' \<or> keyDown ks ''n'' \<or> keyDown ks ''N'')
      else (buf_a buf \<or> buf_y buf \<or> keyDown ks ''z'' \<or> keyDown ks ''Z'' \<or> keyDown ks ''c'' \<or>
              keyDown ks ''C'' \<or> keyDown ks ''n'' \<or> keyDown ks ''N'',
            buf_b buf \<or> buf_x buf \<or> keyDown ks ''x'' \<or> keyDown ks ''X'' \<or> keyDown ks ''v'' \<or>
              keyDown ks ''V'' \<or> keyDown ks ''m'' \<or> keyDown ks ''M''))"
  by (simp add: gameButtons_def Let_def)

lemma bit_orIf: "bit (orIf c k m) n \<longleftrightarrow> bit m n \<or> c \<and> n = k"
  by (auto simp: orIf_def bit_or_iff bit_exp_iff)

lemma gameMask_orIf:
  "gameMask buf ks swap =
     orIf (snd (gameButtons buf ks swap)) 5 (orIf (fst (gameButtons buf ks swap)) 4
       (orIf (buf_down buf) 3 (orIf (buf_up buf) 2 (orIf (buf_right buf) 1 (orIf (buf_left buf) 0 0)))))"
  by (simp add: gameMask_def orIf_def Let_def split: prod.splits)

lemma bit_gameMask:
  "bit (gameMask buf ks swap) n \<longleftrightarrow>
     buf_left buf \<and> n = 0 \<or> buf_right buf \<and> n = 1 \<or> buf_up buf \<and> n = 2 \<or> buf_down buf \<and> n = 3
     \<or> fst (gameButtons buf ks swap) \<and> n = 4 \<or> snd (gameButtons buf ks swap) \<and> n = 5"
  unfolding gameMask_orIf bit_orIf by auto

lemma gameMask_less: "gameMask buf ks swap < 64"
proof -
  have "take_bit 6 (gameMask buf ks swap) = gameMask buf ks swap"
    by (rule bit_eqI) (auto simp: bit_take_bit_iff bit_gameMask)
  then have "gameMask buf ks swap < 2 ^ 6"
    by (simp only: take_bit_nat_eq_self_iff)
  then show ?thesis by simp
qed

lemma setSlot0_eq: "setSlot0 v xs = v # tl xs"
  by (cases xs) (simp_all add: setSlot0_def)

lemma pollGame_eq:
  "pollGame s =
     s\<lparr>lastButtonState := (lastButtonState s)(''menu'' \<mapsto> menuPressed (inputBuffer s) (keys s)),
       emitted := emitted s @ fired ''menu'' (menuPressed (inputBuffer s) (keys s)) s,
       pico8_buttons :=
         map_option (setSlot0 (gameMask (inputBuffer s) (keys s) (swapButtons s))) (pico8_buttons s)\<rparr>"
  by (cases "lastButtonState s ''menu''")
     (auto simp: pollGame_def emitOnce_def emit_def fired_def held_def truthy_def Let_def fun_upd_idem)


section \<open>Polls, frames and sampling\<close>

lemma pollGame_fields [simp]:
  "inputMode (pollGame s) = inputMode s"
  "inputBuffer (pollGame s) = inputBuffer s"
  "swapButtons (pollGame s) = swapButtons s"
  "isAndroid (pollGame s) = isAndroid s"
  "justSwapped (pollGame s) = justSwapped s"
  "keys (pollGame s) = keys s"
  by (simp_all add: pollGame_eq)

lemma poll_buffer:
  assumes "poll gp s = Inr s'"
  shows "sample gp (keys s) (inputBuffer s) = Inr (inputBuffer s')"
    and "keys s' = keys s" and "swapButtons s' = swapButtons s" and "inputMode s' = inputMode s"
  using assms by (auto simp: poll_def Let_def split: sum.splits if_splits)

lemma poll_GAME_unfold:
  assumes "inputMode s = ''GAME''" and "poll gp s = Inr s'"
  obtains buf where "sample gp (keys s) (inputBuffer s) = Inr buf"
    and "s' = pollGame (s\<lparr>inputBuffer := buf\<rparr>)"
  using assms by (auto simp: poll_def Let_def split: sum.splits)

lemma poll_UI_newEvents:
  assumes "inputMode s \<noteq> ''GAME''" and "poll gp s = Inr s'"
  shows "newEvents s s' = filter (\<lambda>e. reads e gp s \<and> \<not> held s e) navEvents"
proof -
  from assms obtain buf where b: "sample gp (keys s) (inputBuffer s) = Inr buf"
    and s': "s' = pollUI (s\<lparr>inputBuffer := buf\<rparr>)"
    by (rule poll_UI_unfold)
  have "newEvents s s' = newEvents (s\<lparr>inputBuffer := buf\<rparr>) (pollUI (s\<lparr>inputBuffer := buf\<rparr>))"
    by (simp add: newEvents_def s')
  also have "\<dots> = filter (\<lambda>e. navInput e buf (keys s) (swapButtons s) \<and> \<not> held s e) navEvents"
    by (simp add: pollUI_newEvents held_def)
  finally show ?thesis by (simp add: reads_def b)
qed

lemma newEvents_swap [simp]: "newEvents (s\<lparr>swapButtons := b\<rparr>) t = newEvents s t"
  by (simp add: newEvents_def)

lemma poll_GAME_menu:
  assumes "inputMode s = ''GAME''" and "poll gp s = Inr s'"
  shows "newEvents s s' =
           (if menuPressed (inputBuffer s') (keys s) \<and> \<not> held s ''menu'' then [''menu''] else [])"
    and "held s' ''menu'' = menuPressed (inputBuffer s') (keys s)"
proof -
  from assms obtain buf where b: "sample gp (keys s) (inputBuffer s) = Inr buf"
    and s': "s' = pollGame (s\<lparr>inputBuffer := buf\<rparr>)"
    by (rule poll_GAME_unfold)
  show "newEvents s s' =
           (if menuPressed (inputBuffer s') (keys s) \<and> \<not> held s ''menu'' then [''menu''] else [])"
    by (simp add: s' pollGame_eq newEvents_def fired_def held_def)
  show "held s' ''menu'' = menuPressed (inputBuffer s') (keys s)"
    by (simp add: s' pollGame_eq held_def truthy_def)
qed

lemma pollUI_last_menu: "lastButtonState (pollUI s) ''menu'' = lastButtonState s ''menu''"
  by (simp add: pollUI_def Let_def)

lemma loop_UI_held_count:
  assumes ui: "inputMode s \<noteq> ''GAME''" and l: "loop h g g s = Inr s'"
    and e: "e \<in> set navEvents" and hd: "held s e"
  shows "count_list (emitted s') e = count_list (emitted s) e" and "\<not> justSwapped s'"
proof -
  let ?s1 = "s\<lparr>justSwapped := False\<rparr>"
  have ui1: "inputMode ?s1 \<noteq> ''GAME''" using ui by simp
  have h1: "held ?s1 e" using hd by (simp add: held_def)
  have rd: "reads e g ?s1 = reads e g s" by (rule reads_cong) simp_all
  obtain s2 s3 where s2: "(if isAndroid s then poll g ?s1 else Inr ?s1) = Inr s2"
    and s3: "poll g s2 = Inr s3"
    and s': "s' = (requestAnimationFrame h s3)\<lparr>loopId := Some h\<rparr>"
    using l by (auto simp: loop_def Let_def split: sum.splits if_splits)
  have A: "inputMode s2 = inputMode s \<and> keys s2 = keys s \<and> swapButtons s2 = swapButtons s
           \<and> \<not> justSwapped s2
           \<and> (held s2 e \<or> \<not> reads e g s)
           \<and> count_list (emitted s2) e = count_list (emitted s) e"
  proof (cases "isAndroid s")
    case True
    with s2 have p: "poll g ?s1 = Inr s2" by simp
    show ?thesis
      using poll_UI_step [OF ui1 p e] h1 rd by simp
  next
    case False
    with s2 have "s2 = ?s1" by simp
    then show ?thesis using h1 by simp
  qed
  then have ui2: "inputMode s2 \<noteq> ''GAME''" using ui by simp
  have rd2: "reads e g s2 = reads e g s" using A reads_cong [of s2 s e g] by simp
  have B: "count_list (emitted s3) e = count_list (emitted s2) e" "justSwapped s3 = justSwapped s2"
    using poll_UI_step(2,7) [OF ui2 s3 e] A rd2 by auto
  show "count_list (emitted s') e = count_list (emitted s) e"
    using A B(1) by (simp add: s' requestAnimationFrame_def)
  show "\<not> justSwapped s'" using A B(2) by (simp add: s' requestAnimationFrame_def)
qed

lemma swapWatch_changed:
  assumes "inputMode s = ''UI''" and "newVal \<noteq> swapButtons s"
  shows "swapWatch newVal s =
     s\<lparr>swapButtons := newVal,
       lastButtonState := (lastButtonState s)(''back'' \<mapsto> True, ''confirm'' \<mapsto> True),
       justSwapped := True\<rparr>"
  using assms by (simp add: swapWatch_def Let_def)

lemma noButton_btnPressed: "noButton btns i \<Longrightarrow> \<not> btnPressed btns i"
  by (auto simp: noButton_def btnPressed_def truthy_def split: if_splits option.splits)

lemma noAxis_tests: "noAxis axs i \<Longrightarrow> \<not> axisBelow i axs \<and> \<not> axisAbove i axs"
  by (auto simp: noAxis_def axisBelow_def axisAbove_def axisValue_def split: if_splits)

lemma dpadOrAxis_ok: "dpadOrAxis btns (Some axs) i test = Inr (btnPressed btns i \<or> test axs)"
  by (simp add: dpadOrAxis_def)

lemma sampleGamepad_ok:
  assumes "buttons gp = Some btns" and "axes gp = Some axs"
  shows "sampleGamepad gp buf =
     Inr \<lparr>buf_up = btnPressed btns 12 \<or> axisBelow 1 axs,
          buf_down = btnPressed btns 13 \<or> axisAbove 1 axs,
          buf_left = btnPressed btns 14 \<or> axisBelow 0 axs,
          buf_right = btnPressed btns 15 \<or> axisAbove 0 axs,
          buf_a = btnPressed btns 0, buf_b = btnPressed btns 1,
          buf_x = btnPressed btns 2, buf_y = btnPressed btns 3,
          buf_start = btnPressed btns 9, buf_select = btnPressed btns 8\<rparr>"
  by (cases buf) (simp add: sampleGamepad_def assms dpadOrAxis_ok Let_def)

lemma applyArrows_eq:
  "applyArrows ks buf =
     buf\<lparr>buf_up := buf_up buf \<or> keyDown ks ''ArrowUp'',
         buf_down := buf_down buf \<or> keyDown ks ''ArrowDown'',
         buf_left := buf_left buf \<or> keyDown ks ''ArrowLeft'',
         buf_right := buf_right buf \<or> keyDown ks ''ArrowRight''\<rparr>"
  by (cases buf) (simp add: applyArrows_def Let_def)

lemma sample_ok:
  assumes "buttons gp = Some btns" and "axes gp = Some axs"
  shows "sample (Some gp) ks buf =
     Inr \<lparr>buf_up = btnPressed btns 12 \<or> axisBelow 1 axs \<or> keyDown ks ''ArrowUp'',
          buf_down = btnPressed btns 13 \<or> axisAbove 1 axs \<or> keyDown ks ''ArrowDown'',
          buf_left = btnPressed btns 14 \<or> axisBelow 0 axs \<or> keyDown ks ''ArrowLeft'',
          buf_right = btnPressed btns 15 \<or> axisAbove 0 axs \<or> keyDown ks ''ArrowRight'',
          buf_a = btnPressed btns 0, buf_b = btnPressed btns 1,
          buf_x = btnPressed btns 2, buf_y = btnPressed btns 3,
          buf_start = btnPressed btns 9, buf_select = btnPressed btns 8\<rparr>"
  by (simp add: sample_def sampleGamepad_ok [OF assms] applyArrows_eq)

section \<open>Claims\<close>

text \<open>
  C1: a poll in Gameplay mode writes to slot 0 of the shared bitmask a value whose bits 0 to 3
  (1, 2, 4, 8) are the sampled left, right, up and down flags, whose bit 4 (16) is set
  exactly when one of the sources of O under the current swap setting is active, whose bit
  5 (32) is set exactly when one of the sources of X is, and which has no other bit set.
  The sources of O are the face buttons A and Y and the keys z, c, n (either case) when the
  swap flag is off, and the face buttons B and X and the keys x, v, m when it is on; X has
  the other set.
\<close>

theorem gameplay_mask_bits:
  assumes "inputMode s = ''GAME''" and "poll gp s = Inr s'"
  shows "sample gp (keys s) (inputBuffer s) = Inr (inputBuffer s')
     \<and> (\<exists>m. pico8_buttons s' = map_option (\<lambda>xs. m # tl xs) (pico8_buttons s)
          \<and> bit m 0 = buf_left (inputBuffer s') \<and> bit m 1 = buf_right (inputBuffer s')
          \<and> bit m 2 = buf_up (inputBuffer s') \<and> bit m 3 = buf_down (inputBuffer s')
          \<and> bit m 4 =
              (if swapButtons s
               then buf_b (inputBuffer s') \<or> buf_x (inputBuffer s') \<or> keyDown (keys s) ''x'' \<or>
                    keyDown (keys s) ''X'' \<or> keyDown (keys s) ''v'' \<or> keyDown (keys s) ''V'' \<or>
                    keyDown (keys s) ''m'' \<or> keyDown (keys s) ''M''
               else buf_a (inputBuffer s') \<or> buf_y (inputBuffer s') \<or> keyDown (keys s) ''z'' \<or>
                    keyDown (keys s) ''Z'' \<or> keyDown (keys s) ''c'' \<or> keyDown (keys s) ''C'' \<or>
                    keyDown (keys s) ''n'' \<or> keyDown (keys s) ''N'')
          \<and> bit m 5 =
              (if swapButtons s
               then buf_a (inputBuffer s') \<or> buf_y (inputBuffer s') \<or> keyDown (keys s) ''z'' \<or>
                    keyDown (keys s) ''Z'' \<or> keyDown (keys s) ''c'' \<or> keyDown (keys s) ''C'' \<or>
                    keyDown (keys s) ''n'' \<or> keyDown (keys s) ''N''
               else buf_b (inputBuffer s') \<or> buf_x (inputBuffer s') \<or> keyDown (keys s) ''x'' \<or>
                    keyDown (keys s) ''X'' \<or> keyDown (keys s) ''v'' \<or> keyDown (keys s) ''V'' \<or>
                    keyDown (keys s) ''m'' \<or> keyDown (keys s) ''M'')
          \<and> m < 64)"
proof -
  from assms obtain buf where b: "sample gp (keys s) (inputBuffer s) = Inr buf"
    and s': "s' = pollGame (s\<lparr>inputBuffer := buf\<rparr>)"
    by (rule poll_GAME_unfold)
  have ib: "inputBuffer s' = buf" by (simp add: s')
  let ?m = "gameMask buf (keys s) (swapButtons s)"
  have p: "pico8_buttons s' = map_option (\<lambda>xs. ?m # tl xs) (pico8_buttons s)"
    by (cases "pico8_buttons s") (simp_all add: s' pollGame_eq setSlot0_eq)
  have bits: "bit ?m 0 = buf_left buf" "bit ?m 1 = buf_right buf" "bit ?m 2 = buf_up buf"
    "bit ?m 3 = buf_down buf" "bit ?m 4 = fst (gameButtons buf (keys s) (swapButtons s))"
    "bit ?m 5 = snd (gameButtons buf (keys s) (swapButtons s))"
    by (simp_all add: bit_gameMask)
  have gb: "fst (gameButtons buf (keys s) (swapButtons s)) =
      (if swapButtons s
               then buf_b buf \<or> buf_x buf \<or> keyDown (keys s) ''x'' \<or>
                    keyDown (keys s) ''X'' \<or> keyDown (keys s) ''v'' \<or> keyDown (keys s) ''V'' \<or>
                    keyDown (keys s) ''m'' \<or> keyDown (keys s) ''M''
               else buf_a buf \<or> buf_y buf \<or> keyDown (keys s) ''z'' \<or>
                    keyDown (keys s) ''Z'' \<or> keyDown (keys s) ''c'' \<or> keyDown (keys s) ''C'' \<or>
                    keyDown (keys s) ''n'' \<or> keyDown (keys s) ''N'')"
    "snd (gameButtons buf (keys s) (swapButtons s)) =
              (if swapButtons s
               then buf_a buf \<or> buf_y buf \<or> keyDown (keys s) ''z'' \<or>
                    keyDown (keys s) ''Z'' \<or> keyDown (keys s) ''c'' \<or> keyDown (keys s) ''C'' \<or>
                    keyDown (keys s) ''n'' \<or> keyDown (keys s) ''N''
               else buf_b buf \<or> buf_x buf \<or> keyDown (keys s) ''x'' \<or>
                    keyDown (keys s) ''X'' \<or> keyDown (keys s) ''v'' \<or> keyDown (keys s) ''V'' \<or>
                    keyDown (keys s) ''m'' \<or> keyDown (keys s) ''M'')"
    by (simp_all add: gameButtons_eq)
  show ?thesis
    unfolding ib
    apply (rule conjI [OF b])
    apply (rule exI [of _ ?m])
    using p bits(1-4) bits(5) [unfolded gb(1)] bits(6) [unfolded gb(2)] gameMask_less [of buf "keys s" "swapButtons s"]
    apply (intro conjI)
    apply assumption+
    done
qed

theorem gameplay_mask_bits_witness:
  "inputMode (setMode (JStr ''GAME'') (construct False None)) = ''GAME''
   \<and> poll (Some padA) (setMode (JStr ''GAME'') (construct False None))
       = Inr (projr (poll (Some padA) (setMode (JStr ''GAME'') (construct False None))))
   \<and> (\<exists>m. pico8_buttons (projr (poll (Some padA) (setMode (JStr ''GAME'') (construct False None))))
            = Some (m # replicate 7 0)
          \<and> bit m 4 \<and> \<not> bit m 5 \<and> \<not> bit m 0 \<and> m < 64)"
proof -
  let ?s = "setMode (JStr ''GAME'') (construct False None)"
  let ?s' = "projr (poll (Some padA) ?s)"
  have g: "inputMode ?s = ''GAME''" by code_simp
  have "\<not> isl (poll (Some padA) ?s)" by code_simp
  then have p: "poll (Some padA) ?s = Inr ?s'" by simp
  have f: "\<not> swapButtons ?s" "buf_a (inputBuffer ?s')" "\<not> buf_b (inputBuffer ?s')"
    "\<not> buf_x (inputBuffer ?s')" "\<not> buf_left (inputBuffer ?s')"
    "\<not> keyDown (keys ?s) ''x''" "\<not> keyDown (keys ?s) ''X''" "\<not> keyDown (keys ?s) ''v''"
    "\<not> keyDown (keys ?s) ''V''" "\<not> keyDown (keys ?s) ''m''" "\<not> keyDown (keys ?s) ''M''"
    "pico8_buttons ?s = Some (replicate 8 0)"
    by code_simp+
  from gameplay_mask_bits [OF g p] obtain m where
    m: "pico8_buttons ?s' = map_option (\<lambda>xs. m # tl xs) (pico8_buttons ?s)"
      "bit m 0 = buf_left (inputBuffer ?s')"
      "bit m 4 = (if swapButtons ?s
               then buf_b (inputBuffer ?s') \<or> buf_x (inputBuffer ?s') \<or> keyDown (keys ?s) ''x'' \<or>
                    keyDown (keys ?s) ''X'' \<or> keyDown (keys ?s) ''v'' \<or> keyDown (keys ?s) ''V'' \<or>
                    keyDown (keys ?s) ''m'' \<or> keyDown (keys ?s) ''M''
               else buf_a (inputBuffer ?s') \<or> buf_y (inputBuffer ?s') \<or> keyDown (keys ?s) ''z'' \<or>
                    keyDown (keys ?s) ''Z'' \<or> keyDown (keys ?s) ''c'' \<or> keyDown (keys ?s) ''C'' \<or>
                    keyDown (keys ?s) ''n'' \<or> keyDown (keys ?s) ''N'')"
      "bit m 5 = (if swapButtons ?s
               then buf_a (inputBuffer ?s') \<or> buf_y (inputBuffer ?s') \<or> keyDown (keys ?s) ''z'' \<or>
                    keyDown (keys ?s) ''Z'' \<or> keyDown (keys ?s) ''c'' \<or> keyDown (keys ?s) ''C'' \<or>
                    keyDown (keys ?s) ''n'' \<or> keyDown (keys ?s) ''N''
               else buf_b (inputBuffer ?s') \<or> buf_x (inputBuffer ?s') \<or> keyDown (keys ?s) ''x'' \<or>
                    keyDown (keys ?s) ''X'' \<or> keyDown (keys ?s) ''v'' \<or> keyDown (keys ?s) ''V'' \<or>
                    keyDown (keys ?s) ''m'' \<or> keyDown (keys ?s) ''M'')"
      "m < 64"
    by blast
  have "pico8_buttons ?s' = Some (m # replicate 7 0)"
    using m(1) f(12) by (simp add: numeral_eq_Suc)
  moreover have "bit m 4" "\<not> bit m 5" "\<not> bit m 0"
    using m(2,3,4) f by simp_all
  ultimately show ?thesis using g p m(5) by blast
qed

text \<open>
  C2: in Navigation mode each of nav-up, nav-down, nav-left, nav-right, confirm and back
  fires on a rising edge only. A hold is a frame followed by frames and key notifications
  in which every poll reads the input pressed. When the hold starts with the edge memory
  of the event clear, or right after a frame whose poll read the input not pressed
  (whatever the memory and the guard were before that frame), the first frame of the hold
  emits the event exactly once and the rest of the hold emits it no more. Poll by poll: the
  event is emitted exactly when the input reads pressed and the memory is clear, and
  afterwards the memory is set exactly when the input read pressed, or the memory was set
  and the swap guard kept confirm or back from being cleared. So a new event needs a poll
  that read not-pressed with no guard in the way.
\<close>

theorem nav_rising_edge:
  assumes "inputMode s = ''UI''" and "e \<in> set navEvents"
  shows "(\<not> held s e \<and> heldThrough e (Frame h gpFlush gp # rest) s
            \<and> loop h gpFlush gp s = Inr s1 \<and> run rest s1 = Inr s'
          \<longrightarrow> count_list (emitted s1) e = count_list (emitted s) e + 1
            \<and> count_list (emitted s') e = count_list (emitted s1) e)
       \<and> (loop h0 gpFlush0 gp0 s = Inr s0 \<and> \<not> reads e gp0 s
            \<and> heldThrough e (Frame h gpFlush gp # rest) s0
            \<and> loop h gpFlush gp s0 = Inr s1 \<and> run rest s1 = Inr s'
          \<longrightarrow> count_list (emitted s1) e = count_list (emitted s0) e + 1
            \<and> count_list (emitted s') e = count_list (emitted s1) e)
       \<and> (poll gp' s = Inr t
          \<longrightarrow> count_list (emitted t) e
                = count_list (emitted s) e + (if reads e gp' s \<and> \<not> held s e then 1 else 0)
            \<and> held t e
                = (reads e gp' s \<or> held s e \<and> justSwapped s \<and> (e = ''back'' \<or> e = ''confirm'')))"
proof -
  from assms(1) have ui: "inputMode s \<noteq> ''GAME''" by simp
  have first: "count_list (emitted s1) e = count_list (emitted s) e + 1
            \<and> count_list (emitted s') e = count_list (emitted s1) e"
    if "\<not> held s e" "heldThrough e (Frame h gpFlush gp # rest) s"
      "loop h gpFlush gp s = Inr s1" "run rest s1 = Inr s'"
    using hold_fires_once [OF ui assms(2) that] .
  have release: "count_list (emitted s1) e = count_list (emitted s0) e + 1
            \<and> count_list (emitted s') e = count_list (emitted s1) e"
    if l0: "loop h0 gpFlush0 gp0 s = Inr s0" and nr: "\<not> reads e gp0 s"
      and ht: "heldThrough e (Frame h gpFlush gp # rest) s0"
      and l: "loop h gpFlush gp s0 = Inr s1" and r: "run rest s1 = Inr s'"
  proof -
    note rl = loop_UI_release [OF ui l0 assms(2) nr]
    have ui0: "inputMode s0 \<noteq> ''GAME''" using rl(2) ui by simp
    show ?thesis using hold_fires_once [OF ui0 assms(2) rl(1) ht l r] .
  qed
  have single: "count_list (emitted t) e
                = count_list (emitted s) e + (if reads e gp' s \<and> \<not> held s e then 1 else 0)
            \<and> held t e
                = (reads e gp' s \<or> held s e \<and> justSwapped s \<and> (e = ''back'' \<or> e = ''confirm''))"
    if p: "poll gp' s = Inr t"
    using poll_UI_step(1,2) [OF ui p assms(2)] by simp
  from first release single show ?thesis by blast
qed

theorem nav_rising_edge_witness:
  "inputMode (construct True None) = ''UI'' \<and> ''confirm'' \<in> set navEvents
   \<and> \<not> held (construct True None) ''confirm''
   \<and> heldThrough ''confirm''
        [Frame 1 (Some padA) (Some padA), Frame 2 (Some padA) (Some padA),
         KeyEvt \<lparr>ev_key = ''q'', ev_type = ''keydown''\<rparr>, Frame 3 (Some padA) (Some padA)]
        (construct True None)
   \<and> count_list (emitted (projr (loop 1 (Some padA) (Some padA) (construct True None)))) ''confirm'' = 1
   \<and> count_list (emitted (projr (run
          [Frame 2 (Some padA) (Some padA), KeyEvt \<lparr>ev_key = ''q'', ev_type = ''keydown''\<rparr>,
           Frame 3 (Some padA) (Some padA)]
          (projr (loop 1 (Some padA) (Some padA) (construct True None)))))) ''confirm'' = 1
   \<and> \<not> reads ''confirm'' None (construct True None)
   \<and> count_list (emitted (projr (loop 2 (Some padA) (Some padA)
          (projr (loop 1 None None (construct True None)))))) ''confirm'' = 1"
proof -
  let ?s = "construct True None"
  let ?rest = "[Frame 2 (Some padA) (Some padA), KeyEvt \<lparr>ev_key = ''q'', ev_type = ''keydown''\<rparr>,
           Frame 3 (Some padA) (Some padA)]"
  let ?s1 = "projr (loop 1 (Some padA) (Some padA) ?s)"
  let ?s' = "projr (run ?rest ?s1)"
  have ui: "inputMode ?s = ''UI''" by code_simp
  have e: "''confirm'' \<in> set navEvents" by code_simp
  have nh: "\<not> held ?s ''confirm''" by code_simp
  have ht: "heldThrough ''confirm'' (Frame 1 (Some padA) (Some padA) # ?rest) ?s" by code_simp
  have "\<not> isl (loop 1 (Some padA) (Some padA) ?s)" by code_simp
  then have l: "loop 1 (Some padA) (Some padA) ?s = Inr ?s1" by simp
  have "\<not> isl (run ?rest ?s1)" by code_simp
  then have r: "run ?rest ?s1 = Inr ?s'" by simp
  have z: "count_list (emitted ?s) ''confirm'' = 0" by code_simp
  from nav_rising_edge [OF ui e, of 1 "Some padA" "Some padA" ?rest ?s1 ?s'] nh ht l r z
  have "count_list (emitted ?s1) ''confirm'' = 1 \<and> count_list (emitted ?s') ''confirm'' = 1"
    by simp
  moreover
  let ?rl = "projr (loop 1 None None ?s)"
  let ?hl = "projr (loop 2 (Some padA) (Some padA) ?rl)"
  have nr: "\<not> reads ''confirm'' None ?s" by code_simp
  have "\<not> isl (loop 1 None None ?s)" by code_simp
  then have l0: "loop 1 None None ?s = Inr ?rl" by simp
  have "\<not> isl (loop 2 (Some padA) (Some padA) ?rl)" by code_simp
  then have l1: "loop 2 (Some padA) (Some padA) ?rl = Inr ?hl" by simp
  have ht0: "heldThrough ''confirm'' [Frame 2 (Some padA) (Some padA)] ?rl" by code_simp
  have r0: "run [] ?hl = Inr ?hl" by simp
  have z0: "count_list (emitted ?rl) ''confirm'' = 0" by code_simp
  from nav_rising_edge [OF ui e, of 2 "Some padA" "Some padA" "[]" ?hl ?hl 1 None None ?rl]
    nr l0 l1 ht0 r0 z0
  have "count_list (emitted ?hl) ''confirm'' = 1" by simp
  ultimately show ?thesis using ui e nh ht nr by simp
qed

text \<open>
  C3, as the code has it: \<^verbatim>\<open>setMode\<close> with a valid mode stores the mode, replaces the edge
  memory by one in which no event is held, and for \<^verbatim>\<open>UI\<close> also sets slot 0 of the shared
  bitmask to zero when the array is there. Since the memory is clear afterwards, the first
  Navigation poll after the reset emits an event for every input that reads pressed: a new
  press fires, and so does a button that was never released.
\<close>

theorem setMode_resets_edges:
  assumes "m = ''UI'' \<or> m = ''GAME''"
  shows "inputMode (setMode (JStr m) s) = m
     \<and> lastButtonState (setMode (JStr m) s) = clearedButtonState
     \<and> (\<forall>e. \<not> held (setMode (JStr m) s) e)
     \<and> pico8_buttons (setMode (JStr m) s)
         = (if m = ''UI'' then map_option (\<lambda>xs. 0 # tl xs) (pico8_buttons s) else pico8_buttons s)
     \<and> (poll gp (setMode (JStr ''UI'') s) = Inr s' \<longrightarrow>
           newEvents (setMode (JStr ''UI'') s) s'
             = filter (\<lambda>e. reads e gp (setMode (JStr ''UI'') s)) navEvents)"
proof -
  have i: "inputMode (setMode (JStr m) s) = m"
    using assms by (auto simp: setMode_def Let_def)
  have l: "lastButtonState (setMode (JStr m') s) = clearedButtonState"
    if "m' = ''UI'' \<or> m' = ''GAME''" for m'
    using that by (auto simp: setMode_def Let_def)
  have h: "\<not> held (setMode (JStr m') s) e" if "m' = ''UI'' \<or> m' = ''GAME''" for e m'
    by (simp add: held_def l [OF that] clearedButtonState_def truthy_def)
  have p: "pico8_buttons (setMode (JStr m) s)
         = (if m = ''UI'' then map_option (\<lambda>xs. 0 # tl xs) (pico8_buttons s) else pico8_buttons s)"
    using assms by (cases "pico8_buttons s") (auto simp: setMode_def Let_def setSlot0_eq)
  have n: "newEvents (setMode (JStr ''UI'') s) s'
             = filter (\<lambda>e. reads e gp (setMode (JStr ''UI'') s)) navEvents"
    if q: "poll gp (setMode (JStr ''UI'') s) = Inr s'"
  proof -
    have u: "inputMode (setMode (JStr ''UI'') s) \<noteq> ''GAME''"
      by (simp add: setMode_def Let_def)
    show ?thesis
      using poll_UI_newEvents [OF u q] h [of "''UI''"] by simp
  qed
  from i l [OF assms] h [OF assms] p n show ?thesis by blast
qed

theorem setMode_resets_edges_witness:
  "(''UI'' = ''UI'' \<or> ''UI'' = ''GAME'')
   \<and> held (projr (poll (Some padA) (construct False None))) ''confirm''
   \<and> \<not> held (setMode (JStr ''UI'') (projr (poll (Some padA) (construct False None)))) ''confirm''
   \<and> pico8_buttons (setMode (JStr ''UI'') (projr (poll (Some padA) (construct False None))))
       = map_option (\<lambda>xs. 0 # tl xs) (pico8_buttons (projr (poll (Some padA) (construct False None))))
   \<and> poll (Some padA) (setMode (JStr ''UI'') (projr (poll (Some padA) (construct False None))))
       = Inr (projr (poll (Some padA) (setMode (JStr ''UI'') (projr (poll (Some padA) (construct False None))))))
   \<and> newEvents (setMode (JStr ''UI'') (projr (poll (Some padA) (construct False None))))
        (projr (poll (Some padA) (setMode (JStr ''UI'') (projr (poll (Some padA) (construct False None))))))
       = [''confirm'']"
proof -
  let ?s = "projr (poll (Some padA) (construct False None))"
  let ?r = "setMode (JStr ''UI'') ?s"
  let ?s' = "projr (poll (Some padA) ?r)"
  have v: "''UI'' = ''UI'' \<or> ''UI'' = ''GAME''" by simp
  have h: "held ?s ''confirm''" by code_simp
  have "\<not> isl (poll (Some padA) ?r)" by code_simp
  then have p: "poll (Some padA) ?r = Inr ?s'" by simp
  have f: "filter (\<lambda>e. reads e (Some padA) ?r) navEvents = [''confirm'']" by code_simp
  from setMode_resets_edges [OF v, of ?s "Some padA" ?s'] p f
  have "\<not> held ?r ''confirm''
     \<and> pico8_buttons ?r = map_option (\<lambda>xs. 0 # tl xs) (pico8_buttons ?s)
     \<and> newEvents ?r ?s' = [''confirm'']"
    by simp
  with v h p show ?thesis by blast
qed

text \<open>
  The claim as it is written says that a button held across a mode switch and back cannot
  fire again. It does: A is held in Navigation mode and fires confirm, the mode goes to
  Gameplay and is polled with A still held, the mode comes back, and the next poll with A
  still held fires confirm a second time.
\<close>

theorem held_button_refires_counterexample:
  "\<not> isl (poll (Some padA) (construct False None))
   \<and> emitted (projr (poll (Some padA) (construct False None))) = [''confirm'']
   \<and> held (projr (poll (Some padA) (construct False None))) ''confirm''
   \<and> \<not> isl (poll (Some padA) (setMode (JStr ''GAME'') (projr (poll (Some padA) (construct False None)))))
   \<and> \<not> isl (poll (Some padA) (setMode (JStr ''UI'')
          (projr (poll (Some padA) (setMode (JStr ''GAME'') (projr (poll (Some padA) (construct False None))))))))
   \<and> emitted (projr (poll (Some padA) (setMode (JStr ''UI'')
          (projr (poll (Some padA) (setMode (JStr ''GAME'') (projr (poll (Some padA) (construct False None)))))))))
       = [''confirm'', ''confirm'']"
  by code_simp

text \<open>
  C4: when the swap flag changes in Navigation mode, the watcher marks confirm and back as
  held and raises the guard; in any state with the guard raised, \<^verbatim>\<open>emitChange\<close> with a
  not-pressed reading leaves the state as it is for confirm and for back; the poll that
  follows the change emits neither event, whatever the gamepad reads, and neither does the
  whole next frame when both of its polls see the same gamepad, and that frame lowers the
  guard.
\<close>

theorem swap_guard:
  assumes "inputMode s = ''UI''" and "newVal \<noteq> swapButtons s"
  shows "held (swapWatch newVal s) ''confirm'' \<and> held (swapWatch newVal s) ''back''
     \<and> justSwapped (swapWatch newVal s) \<and> swapButtons (swapWatch newVal s) = newVal
     \<and> (justSwapped t \<longrightarrow>
           emitChange ''confirm'' False t = t \<and> emitChange ''back'' False t = t)
     \<and> (poll gp (swapWatch newVal s) = Inr s2 \<longrightarrow>
           count_list (emitted s2) ''confirm'' = count_list (emitted s) ''confirm''
         \<and> count_list (emitted s2) ''back'' = count_list (emitted s) ''back''
         \<and> held s2 ''confirm'' \<and> held s2 ''back'')
     \<and> (loop h g g (swapWatch newVal s) = Inr s3 \<longrightarrow>
           count_list (emitted s3) ''confirm'' = count_list (emitted s) ''confirm''
         \<and> count_list (emitted s3) ''back'' = count_list (emitted s) ''back''
         \<and> \<not> justSwapped s3)"
proof -
  let ?w = "swapWatch newVal s"
  note w = swapWatch_changed [OF assms]
  have hc: "held ?w ''confirm''" and hb: "held ?w ''back''"
    and js: "justSwapped ?w" and sb: "swapButtons ?w = newVal"
    and em: "emitted ?w = emitted s" and ui: "inputMode ?w \<noteq> ''GAME''"
    using assms(1) by (simp_all add: w held_def truthy_def)
  have g: "emitChange ''confirm'' False t = t \<and> emitChange ''back'' False t = t"
    if "justSwapped t"
    using that by (simp add: emitChange_def)
  have c: "''confirm'' \<in> set navEvents" and b: "''back'' \<in> set navEvents"
    by (simp_all add: navEvents_def)
  have P: "count_list (emitted s2) ''confirm'' = count_list (emitted s) ''confirm''
         \<and> count_list (emitted s2) ''back'' = count_list (emitted s) ''back''
         \<and> held s2 ''confirm'' \<and> held s2 ''back''"
    if p: "poll gp ?w = Inr s2"
    using poll_UI_step(1,2) [OF ui p c] poll_UI_step(1,2) [OF ui p b] hc hb js em by simp
  have L: "count_list (emitted s3) ''confirm'' = count_list (emitted s) ''confirm''
         \<and> count_list (emitted s3) ''back'' = count_list (emitted s) ''back''
         \<and> \<not> justSwapped s3"
    if l: "loop h g g ?w = Inr s3"
    using loop_UI_held_count [OF ui l c hc] loop_UI_held_count [OF ui l b hb] em by simp
  from hc hb js sb g P L show ?thesis by blast
qed

theorem swap_guard_witness:
  "inputMode (projr (poll (Some padB) (construct True None))) = ''UI''
   \<and> True \<noteq> swapButtons (projr (poll (Some padB) (construct True None)))
   \<and> emitted (projr (poll (Some padB) (construct True None))) = [''back'']
   \<and> justSwapped (swapWatch True (projr (poll (Some padB) (construct True None))))
   \<and> poll (Some padB) (swapWatch True (projr (poll (Some padB) (construct True None))))
       = Inr (projr (poll (Some padB) (swapWatch True (projr (poll (Some padB) (construct True None))))))
   \<and> count_list (emitted (projr (poll (Some padB)
          (swapWatch True (projr (poll (Some padB) (construct True None))))))) ''confirm'' = 0
   \<and> count_list (emitted (projr (poll (Some padB)
          (swapWatch True (projr (poll (Some padB) (construct True None))))))) ''back'' = 1
   \<and> count_list (emitted (projr (loop 1 (Some padB) (Some padB)
          (swapWatch True (projr (poll (Some padB) (construct True None))))))) ''confirm'' = 0
   \<and> count_list (emitted (projr (loop 1 (Some padB) (Some padB)
          (swapWatch True (projr (poll (Some padB) (construct True None))))))) ''back'' = 1"
proof -
  let ?s = "projr (poll (Some padB) (construct True None))"
  let ?w = "swapWatch True ?s"
  let ?s2 = "projr (poll (Some padB) ?w)"
  let ?s3 = "projr (loop 1 (Some padB) (Some padB) ?w)"
  have u: "inputMode ?s = ''UI''" by code_simp
  have n: "True \<noteq> swapButtons ?s" by code_simp
  have e: "emitted ?s = [''back'']" by code_simp
  have "\<not> isl (poll (Some padB) ?w)" by code_simp
  then have p: "poll (Some padB) ?w = Inr ?s2" by simp
  have "\<not> isl (loop 1 (Some padB) (Some padB) ?w)" by code_simp
  then have l: "loop 1 (Some padB) (Some padB) ?w = Inr ?s3" by simp
  from swap_guard [OF u n, of ?w "Some padB" ?s2 1 "Some padB" ?s3] p l e
  have "justSwapped ?w
    \<and> count_list (emitted ?s2) ''confirm'' = 0 \<and> count_list (emitted ?s2) ''back'' = 1
    \<and> count_list (emitted ?s3) ''confirm'' = 0 \<and> count_list (emitted ?s3) ''back'' = 1"
    by simp
  with u n e p show ?thesis by blast
qed

text \<open>
  C5, as the code has it: the menu trigger is evaluated in Gameplay mode only. There a poll
  emits exactly one menu event when start, select, Escape, p or P is pressed and the menu
  memory is clear, and nothing otherwise; the menu memory afterwards is the reading itself,
  so it is cleared on every frame without a source; the swap flag changes nothing of this.
  In Navigation mode a poll emits no menu event and leaves the menu memory alone.
\<close>

theorem menu_trigger_gameplay:
  assumes "poll gp s = Inr s'"
  shows "(inputMode s = ''GAME'' \<longrightarrow>
            newEvents s s' =
              (if (buf_select (inputBuffer s') \<or> buf_start (inputBuffer s') \<or>
                   keyDown (keys s) ''Escape'' \<or> keyDown (keys s) ''p'' \<or> keyDown (keys s) ''P'')
                  \<and> \<not> held s ''menu''
               then [''menu''] else [])
          \<and> held s' ''menu'' =
              (buf_select (inputBuffer s') \<or> buf_start (inputBuffer s') \<or>
               keyDown (keys s) ''Escape'' \<or> keyDown (keys s) ''p'' \<or> keyDown (keys s) ''P'')
          \<and> (\<forall>b t. poll gp (s\<lparr>swapButtons := b\<rparr>) = Inr t \<longrightarrow>
                 newEvents (s\<lparr>swapButtons := b\<rparr>) t = newEvents s s'
                 \<and> held t ''menu'' = held s' ''menu''))
       \<and> (inputMode s \<noteq> ''GAME'' \<longrightarrow>
            ''menu'' \<notin> set (newEvents s s')
          \<and> lastButtonState s' ''menu'' = lastButtonState s ''menu'')"
proof (cases "inputMode s = ''GAME''")
  case True
  note m = poll_GAME_menu [OF True assms]
  have sw: "newEvents (s\<lparr>swapButtons := b\<rparr>) t = newEvents s s' \<and> held t ''menu'' = held s' ''menu''"
    if t: "poll gp (s\<lparr>swapButtons := b\<rparr>) = Inr t" for b t
  proof -
    have g: "inputMode (s\<lparr>swapButtons := b\<rparr>) = ''GAME''" using True by simp
    have "inputBuffer t = inputBuffer s'"
      using poll_buffer(1) [OF t] poll_buffer(1) [OF assms] by simp
    then show ?thesis
      using poll_GAME_menu [OF g t] m by (simp add: held_def)
  qed
  show ?thesis
    using True m sw by (simp add: menuPressed_def)
next
  case False
  from False assms obtain buf where s': "s' = pollUI (s\<lparr>inputBuffer := buf\<rparr>)"
    by (rule poll_UI_unfold)
  have "''menu'' \<notin> set (newEvents s s')"
    by (simp add: poll_UI_newEvents [OF False assms] navEvents_def)
  moreover have "lastButtonState s' ''menu'' = lastButtonState s ''menu''"
    by (simp add: s' pollUI_last_menu)
  ultimately show ?thesis using False by simp
qed

theorem menu_trigger_gameplay_witness:
  "poll (Some padStart) (setMode (JStr ''GAME'') (construct False None))
     = Inr (projr (poll (Some padStart) (setMode (JStr ''GAME'') (construct False None))))
   \<and> inputMode (setMode (JStr ''GAME'') (construct False None)) = ''GAME''
   \<and> newEvents (setMode (JStr ''GAME'') (construct False None))
        (projr (poll (Some padStart) (setMode (JStr ''GAME'') (construct False None)))) = [''menu'']
   \<and> held (projr (poll (Some padStart) (setMode (JStr ''GAME'') (construct False None)))) ''menu''
   \<and> poll (Some padStart) (construct False None)
     = Inr (projr (poll (Some padStart) (construct False None)))
   \<and> inputMode (construct False None) \<noteq> ''GAME''
   \<and> ''menu'' \<notin> set (newEvents (construct False None)
        (projr (poll (Some padStart) (construct False None))))"
proof -
  let ?s = "setMode (JStr ''GAME'') (construct False None)"
  let ?s' = "projr (poll (Some padStart) ?s)"
  let ?u = "construct False None"
  let ?u' = "projr (poll (Some padStart) ?u)"
  have g: "inputMode ?s = ''GAME''" by code_simp
  have "\<not> isl (poll (Some padStart) ?s)" by code_simp
  then have p: "poll (Some padStart) ?s = Inr ?s'" by simp
  have f: "buf_start (inputBuffer ?s')" "\<not> held ?s ''menu''" by code_simp+
  from menu_trigger_gameplay [OF p] g f
  have a: "newEvents ?s ?s' = [''menu''] \<and> held ?s' ''menu''" by simp
  have ng: "inputMode ?u \<noteq> ''GAME''" by code_simp
  have "\<not> isl (poll (Some padStart) ?u)" by code_simp
  then have q: "poll (Some padStart) ?u = Inr ?u'" by simp
  from menu_trigger_gameplay [OF q] ng
  have b: "''menu'' \<notin> set (newEvents ?u ?u')" by simp
  from p g a q ng b show ?thesis by blast
qed

text \<open>
  The claim as it is written has the trigger in every mode. In Navigation mode, with the
  menu memory clear and start pressed, the poll emits nothing.
\<close>

theorem menu_trigger_navigation_counterexample:
  "inputMode (construct False None) = ''UI''
   \<and> \<not> held (construct False None) ''menu''
   \<and> \<not> isl (poll (Some padStart) (construct False None))
   \<and> buf_start (inputBuffer (projr (poll (Some padStart) (construct False None))))
   \<and> emitted (projr (poll (Some padStart) (construct False None))) = []"
  by code_simp

text \<open>
  C6: with no gamepad, the sample has the six button flags false and each direction flag
  equal to its arrow key, whatever the buffer held before; the poll succeeds and leaves
  this sample in the buffer.
\<close>

theorem no_gamepad_flags:
  "sample None ks buf =
     Inr \<lparr>buf_up = keyDown ks ''ArrowUp'', buf_down = keyDown ks ''ArrowDown'',
          buf_left = keyDown ks ''ArrowLeft'', buf_right = keyDown ks ''ArrowRight'',
          buf_a = False, buf_b = False, buf_x = False, buf_y = False,
          buf_start = False, buf_select = False\<rparr>
   \<and> (\<exists>s'. poll None s = Inr s'
          \<and> inputBuffer s' =
              \<lparr>buf_up = keyDown (keys s) ''ArrowUp'', buf_down = keyDown (keys s) ''ArrowDown'',
               buf_left = keyDown (keys s) ''ArrowLeft'', buf_right = keyDown (keys s) ''ArrowRight'',
               buf_a = False, buf_b = False, buf_x = False, buf_y = False,
               buf_start = False, buf_select = False\<rparr>)"
proof -
  have a: "sample None ks' buf' =
     Inr \<lparr>buf_up = keyDown ks' ''ArrowUp'', buf_down = keyDown ks' ''ArrowDown'',
          buf_left = keyDown ks' ''ArrowLeft'', buf_right = keyDown ks' ''ArrowRight'',
          buf_a = False, buf_b = False, buf_x = False, buf_y = False,
          buf_start = False, buf_select = False\<rparr>" for ks' buf'
    by (cases buf') (simp add: sample_def resetBuffer_def applyArrows_def Let_def)
  show ?thesis
    by (simp add: a poll_def Let_def)
qed

text \<open>
  C7: \<^verbatim>\<open>setMode\<close> with any value other than the strings \<^verbatim>\<open>UI\<close> and \<^verbatim>\<open>GAME\<close> returns the
  state as it was (the function has no error result); the two strings are accepted.
\<close>

theorem setMode_invalid_noop:
  "(mode \<noteq> JStr ''UI'' \<and> mode \<noteq> JStr ''GAME'' \<longrightarrow> setMode mode s = s)
   \<and> inputMode (setMode (JStr ''UI'') s) = ''UI''
   \<and> inputMode (setMode (JStr ''GAME'') s) = ''GAME''"
  by (cases mode) (auto simp: setMode_def Let_def)

theorem setMode_invalid_noop_witness:
  "JStr ''MENU'' \<noteq> JStr ''UI'' \<and> JStr ''MENU'' \<noteq> JStr ''GAME''
   \<and> setMode (JStr ''MENU'') (construct False None) = construct False None
   \<and> setMode JUndefined (construct False None) = construct False None"
  using setMode_invalid_noop [of "JStr ''MENU''" "construct False None"]
        setMode_invalid_noop [of JUndefined "construct False None"]
  by simp

text \<open>
  C8: for a gamepad with its two arrays, the poll succeeds, and a button entry that is
  missing (index past the end, entry undefined, or no \<^verbatim>\<open>pressed\<close> field) counts as not
  pressed at every index the sampler consults: the face, select and start flags are false,
  and a direction flag is what the axis and the arrow key give. A missing axis entry counts
  as neutral: the direction flags are what the d-pad button and the arrow key give.
\<close>

theorem missing_fields_not_pressed:
  assumes "buttons gp = Some btns" and "axes gp = Some axs"
  shows "\<exists>s'. poll (Some gp) s = Inr s'
     \<and> sample (Some gp) (keys s) (inputBuffer s) = Inr (inputBuffer s')
     \<and> (noButton btns 0 \<longrightarrow> \<not> buf_a (inputBuffer s'))
     \<and> (noButton btns 1 \<longrightarrow> \<not> buf_b (inputBuffer s'))
     \<and> (noButton btns 2 \<longrightarrow> \<not> buf_x (inputBuffer s'))
     \<and> (noButton btns 3 \<longrightarrow> \<not> buf_y (inputBuffer s'))
     \<and> (noButton btns 8 \<longrightarrow> \<not> buf_select (inputBuffer s'))
     \<and> (noButton btns 9 \<longrightarrow> \<not> buf_start (inputBuffer s'))
     \<and> (noButton btns 12 \<longrightarrow>
           buf_up (inputBuffer s') = (axisBelow 1 axs \<or> keyDown (keys s) ''ArrowUp''))
     \<and> (noButton btns 13 \<longrightarrow>
           buf_down (inputBuffer s') = (axisAbove 1 axs \<or> keyDown (keys s) ''ArrowDown''))
     \<and> (noButton btns 14 \<longrightarrow>
           buf_left (inputBuffer s') = (axisBelow 0 axs \<or> keyDown (keys s) ''ArrowLeft''))
     \<and> (noButton btns 15 \<longrightarrow>
           buf_right (inputBuffer s') = (axisAbove 0 axs \<or> keyDown (keys s) ''ArrowRight''))
     \<and> (noAxis axs 1 \<longrightarrow>
           buf_up (inputBuffer s') = (btnPressed btns 12 \<or> keyDown (keys s) ''ArrowUp'')
         \<and> buf_down (inputBuffer s') = (btnPressed btns 13 \<or> keyDown (keys s) ''ArrowDown''))
     \<and> (noAxis axs 0 \<longrightarrow>
           buf_left (inputBuffer s') = (btnPressed btns 14 \<or> keyDown (keys s) ''ArrowLeft'')
         \<and> buf_right (inputBuffer s') = (btnPressed btns 15 \<or> keyDown (keys s) ''ArrowRight''))"
proof -
  note so = sample_ok [OF assms, of "keys s" "inputBuffer s"]
  then obtain s' where p: "poll (Some gp) s = Inr s'"
    by (simp add: poll_def Let_def)
  from poll_buffer(1) [OF p] so
  have ib: "inputBuffer s' =
     \<lparr>buf_up = btnPressed btns 12 \<or> axisBelow 1 axs \<or> keyDown (keys s) ''ArrowUp'',
          buf_down = btnPressed btns 13 \<or> axisAbove 1 axs \<or> keyDown (keys s) ''ArrowDown'',
          buf_left = btnPressed btns 14 \<or> axisBelow 0 axs \<or> keyDown (keys s) ''ArrowLeft'',
          buf_right = btnPressed btns 15 \<or> axisAbove 0 axs \<or> keyDown (keys s) ''ArrowRight'',
          buf_a = btnPressed btns 0, buf_b = btnPressed btns 1,
          buf_x = btnPressed btns 2, buf_y = btnPressed btns 3,
          buf_start = btnPressed btns 9, buf_select = btnPressed btns 8\<rparr>"
    by simp
  have f: "noButton btns 0 \<longrightarrow> \<not> buf_a (inputBuffer s')"
    "noButton btns 1 \<longrightarrow> \<not> buf_b (inputBuffer s')"
    "noButton btns 2 \<longrightarrow> \<not> buf_x (inputBuffer s')"
    "noButton btns 3 \<longrightarrow> \<not> buf_y (inputBuffer s')"
    "noButton btns 8 \<longrightarrow> \<not> buf_select (inputBuffer s')"
    "noButton btns 9 \<longrightarrow> \<not> buf_start (inputBuffer s')"
    using noButton_btnPressed [of btns] by (simp_all add: ib)
  have d: "noButton btns 12 \<longrightarrow>
           buf_up (inputBuffer s') = (axisBelow 1 axs \<or> keyDown (keys s) ''ArrowUp'')"
    "noButton btns 13 \<longrightarrow>
           buf_down (inputBuffer s') = (axisAbove 1 axs \<or> keyDown (keys s) ''ArrowDown'')"
    "noButton btns 14 \<longrightarrow>
           buf_left (inputBuffer s') = (axisBelow 0 axs \<or> keyDown (keys s) ''ArrowLeft'')"
    "noButton btns 15 \<longrightarrow>
           buf_right (inputBuffer s') = (axisAbove 0 axs \<or> keyDown (keys s) ''ArrowRight'')"
    using noButton_btnPressed [of btns] by (simp_all add: ib)
  have x: "noAxis axs 1 \<longrightarrow>
           buf_up (inputBuffer s') = (btnPressed btns 12 \<or> keyDown (keys s) ''ArrowUp'')
         \<and> buf_down (inputBuffer s') = (btnPressed btns 13 \<or> keyDown (keys s) ''ArrowDown'')"
    "noAxis axs 0 \<longrightarrow>
           buf_left (inputBuffer s') = (btnPressed btns 14 \<or> keyDown (keys s) ''ArrowLeft'')
         \<and> buf_right (inputBuffer s') = (btnPressed btns 15 \<or> keyDown (keys s) ''ArrowRight'')"
    using noAxis_tests [of axs] by (simp_all add: ib)
  show ?thesis
    by (rule exI [of _ s']) (intro conjI p poll_buffer(1) [OF p] f d x)
qed

theorem missing_fields_not_pressed_witness:
  "buttons \<lparr>buttons = Some [None, Some \<lparr>pressed = None\<rparr>], axes = Some [Some (- 1)]\<rparr>
     = Some [None, Some \<lparr>pressed = None\<rparr>]
   \<and> axes \<lparr>buttons = Some [None, Some \<lparr>pressed = None\<rparr>], axes = Some [Some (- 1)]\<rparr>
     = Some [Some (- 1)]
   \<and> noButton [None, Some \<lparr>pressed = None\<rparr>] 0 \<and> noButton [None, Some \<lparr>pressed = None\<rparr>] 1
   \<and> noButton [None, Some \<lparr>pressed = None\<rparr>] 12 \<and> noAxis [Some (- 1)] 1
   \<and> (\<exists>s'. poll (Some \<lparr>buttons = Some [None, Some \<lparr>pressed = None\<rparr>], axes = Some [Some (- 1)]\<rparr>)
                (construct False None) = Inr s'
          \<and> \<not> buf_a (inputBuffer s') \<and> \<not> buf_b (inputBuffer s') \<and> \<not> buf_up (inputBuffer s')
          \<and> \<not> buf_down (inputBuffer s'))"
proof -
  let ?btns = "[None, Some \<lparr>pressed = None\<rparr>]"
  let ?axs = "[Some (- 1 :: real)]"
  let ?gp = "\<lparr>buttons = Some ?btns, axes = Some ?axs\<rparr>"
  have b: "buttons ?gp = Some ?btns" and a: "axes ?gp = Some ?axs" by simp_all
  have n: "noButton ?btns 0" "noButton ?btns 1" "noButton ?btns 12" "noButton ?btns 13" "noAxis ?axs 1"
    by (simp_all add: noButton_def noAxis_def)
  have k: "\<not> keyDown (keys (construct False None)) ''ArrowUp''"
    "\<not> keyDown (keys (construct False None)) ''ArrowDown''"
    "\<not> btnPressed ?btns 13" "\<not> btnPressed ?btns 12"
    by (simp_all add: construct_def keyDown_def truthy_def btnPressed_def)
  have "\<exists>s'. poll (Some ?gp) (construct False None) = Inr s'
          \<and> \<not> buf_a (inputBuffer s') \<and> \<not> buf_b (inputBuffer s') \<and> \<not> buf_up (inputBuffer s')
          \<and> \<not> buf_down (inputBuffer s')"
    using missing_fields_not_pressed [OF b a, of "construct False None"] n k
    by - (elim exE conjE, intro exI conjI, assumption, simp_all)
  with b a n show ?thesis by blast
qed

text \<open>
  C9: \<^verbatim>\<open>setMode\<close> with the mode the service is already in still clears the edge memory,
  and for \<^verbatim>\<open>UI\<close> still zeroes slot 0 of the shared bitmask; the state changes whenever an
  event was held or, for \<^verbatim>\<open>UI\<close>, the slot was not zero.
\<close>

theorem setMode_same_mode:
  assumes "inputMode s = m" and "m = ''UI'' \<or> m = ''GAME''"
  shows "lastButtonState (setMode (JStr m) s) = clearedButtonState
     \<and> (\<forall>e. \<not> held (setMode (JStr m) s) e)
     \<and> (m = ''UI'' \<longrightarrow>
           pico8_buttons (setMode (JStr m) s) = map_option (\<lambda>xs. 0 # tl xs) (pico8_buttons s))
     \<and> ((\<exists>e. held s e) \<longrightarrow> setMode (JStr m) s \<noteq> s)
     \<and> (m = ''UI'' \<and> (\<exists>v xs. pico8_buttons s = Some (v # xs) \<and> v \<noteq> 0)
           \<longrightarrow> setMode (JStr m) s \<noteq> s)"
proof -
  have l: "lastButtonState (setMode (JStr m) s) = clearedButtonState"
    using assms(2) by (auto simp: setMode_def Let_def)
  then have h: "\<not> held (setMode (JStr m) s) e" for e
    by (simp add: held_def clearedButtonState_def truthy_def)
  have p: "m = ''UI'' \<Longrightarrow>
      pico8_buttons (setMode (JStr m) s) = map_option (\<lambda>xs. 0 # tl xs) (pico8_buttons s)"
    by (cases "pico8_buttons s") (simp_all add: setMode_def Let_def setSlot0_eq)
  have c1: "setMode (JStr m) s \<noteq> s" if "held s e" for e
    using that h [of e] by auto
  have c2: "setMode (JStr m) s \<noteq> s" if "m = ''UI''" "pico8_buttons s = Some (v # xs)" "v \<noteq> 0" for v xs
  proof
    assume "setMode (JStr m) s = s"
    then have "pico8_buttons (setMode (JStr m) s) = Some (v # xs)" using that(2) by simp
    with p [OF that(1)] that(2,3) show False by simp
  qed
  from l h p c1 c2 show ?thesis by blast
qed

theorem setMode_same_mode_witness:
  "inputMode (projr (poll (Some padA) (construct False None))) = ''UI''
   \<and> held (projr (poll (Some padA) (construct False None))) ''confirm''
   \<and> setMode (JStr ''UI'') (projr (poll (Some padA) (construct False None)))
        \<noteq> projr (poll (Some padA) (construct False None))
   \<and> \<not> held (setMode (JStr ''UI'') (projr (poll (Some padA) (construct False None)))) ''confirm''"
proof -
  let ?s = "projr (poll (Some padA) (construct False None))"
  have u: "inputMode ?s = ''UI''" by code_simp
  have h: "held ?s ''confirm''" by code_simp
  from setMode_same_mode [OF u] h u show ?thesis by blast
qed

text \<open>
  C10: \<^verbatim>\<open>destroy\<close> changes four things only: the loop handle is forgotten and its
  request cancelled when the loop was running, the key listeners are detached and the
  driver is marked inactive. The mode, the edge memory, the cached swap flag, the guard,
  the key table, the frame buffer, the shared bitmask and the event stream stay as they
  were.
\<close>

theorem destroy_effects:
  "destroy s =
     s\<lparr>loopId := (if loopRunning s then None else loopId s),
       pendingFrame := (if loopRunning s \<and> pendingFrame s = loopId s then None else pendingFrame s),
       keyListeners := False, active := False\<rparr>
   \<and> inputMode (destroy s) = inputMode s
   \<and> lastButtonState (destroy s) = lastButtonState s
   \<and> swapButtons (destroy s) = swapButtons s
   \<and> justSwapped (destroy s) = justSwapped s
   \<and> keys (destroy s) = keys s
   \<and> inputBuffer (destroy s) = inputBuffer s
   \<and> pico8_buttons (destroy s) = pico8_buttons s
   \<and> emitted (destroy s) = emitted s
   \<and> \<not> active (destroy s) \<and> \<not> keyListeners (destroy s) \<and> \<not> loopRunning (destroy s)"
  by (auto simp: destroy_def loopRunning_def cancelAnimationFrame_def Let_def split: option.splits)

end
